theory Spec2Isabelle
  imports Main "HOL-Library.List_Lexorder"
begin

section \<open>Data model of qBitrr/main.py\<close>

text \<open>
  Exceptions are values. The constructors follow Python's class hierarchy as far as
  main.py tells classes apart: \<open>KeyboardInterrupt\<close> and \<open>SystemExit\<close> derive from
  \<open>BaseException\<close> only; \<open>OtherBaseException\<close> is any further class below
  \<open>BaseException\<close> that is not an \<open>Exception\<close>; \<open>OtherException\<close> is every instance
  of \<open>Exception\<close> that is not a \<open>requests.RequestException\<close>. The instances of
  \<open>requests.RequestException\<close> come in two kinds: \<open>RequestException\<close> is a failure of the
  network layer (connection refused, timeout, name resolution), and
  \<open>ApplicationRequestException\<close> is an error of the application level whose class
  nevertheless derives from \<open>requests.RequestException\<close>, as the client's \<open>LoginFailed\<close>
  and its HTTP 4xx and 5xx errors do.
\<close>

datatype exn =
    KeyboardInterrupt
  | SystemExit int
  | OtherBaseException string
  | RequestException string
  | ApplicationRequestException string
  | OtherException string

fun is_Exception :: "exn \<Rightarrow> bool" where
  "is_Exception (RequestException _) = True"
| "is_Exception (ApplicationRequestException _) = True"
| "is_Exception (OtherException _) = True"
| "is_Exception _ = False"

text \<open>\<open>isinstance(x, requests.RequestException)\<close>, the test of the \<open>except\<close> clause.\<close>

fun is_RequestException :: "exn \<Rightarrow> bool" where
  "is_RequestException (RequestException _) = True"
| "is_RequestException (ApplicationRequestException _) = True"
| "is_RequestException _ = False"

text \<open>A failure of the network layer, as opposed to every other exception.\<close>

fun is_network_failure :: "exn \<Rightarrow> bool" where
  "is_network_failure (RequestException _) = True"
| "is_network_failure _ = False"

text \<open>Configuration values (\<open>CONFIG.get\<close>), logger levels and arguments of a log call.\<close>

datatype cfg = CStr string | CInt int | CNone

datatype level = TRACE | DEBUG | NOTICE | HNOTICE | WARNING | ERROR | CRITICAL

datatype 'v arg = AVer 'v | ACfg cfg | ANat nat | AStr string | AExn exn

text \<open>
  A worker handle is a process identity; the four operations main.py calls on one.
\<close>

type_synonym handle = nat

datatype proc_op = Start | Join | Kill | Terminate

text \<open>
  Everything the module does to the outside is an event of a trace, in program order:
  a call of a logger (logger name, level, format string, arguments), \<open>time.sleep\<close>,
  the request \<open>self.client.app_version()\<close>, and a call of an operation of a handle.
  An event records that the call was made, also when the call then raises.
\<close>

datatype 'v event =
    Log string level string "'v arg list"
  | Sleep nat
  | AppVersion
  | Proc proc_op handle

type_synonym 'v trace = "'v event list"

text \<open>
  Modelled from the spec: \<open>qBitrr.utils.ExpiringSet\<close> is not part of main.py. The spec
  describes it as a mapping from an entry key to an expiry timestamp, insertion time plus a
  fixed time-to-live; a key is present iff \<open>now < expiry\<close>, and adding a key again gives it
  a full time-to-live from that moment. Time is counted in whole seconds.
\<close>

record ExpiringSet =
  max_age_seconds :: nat
  entries :: "int \<rightharpoonup> nat"

text \<open>Modelled from the spec: the constructor \<open>ExpiringSet(max_age_seconds=ttl)\<close>, an empty cache with a fixed time-to-live.\<close>

definition ExpiringSet_init :: "nat \<Rightarrow> ExpiringSet" where
  "ExpiringSet_init ttl = \<lparr>max_age_seconds = ttl, entries = Map.empty\<rparr>"

text \<open>Modelled from the spec: the test \<open>k in s\<close> at the time \<open>now\<close>; an expired key counts as absent.\<close>

definition ExpiringSet_contains :: "ExpiringSet \<Rightarrow> int \<Rightarrow> nat \<Rightarrow> bool" where
  "ExpiringSet_contains s k now = (case entries s k of None \<Rightarrow> False | Some expiry \<Rightarrow> now < expiry)"

text \<open>Modelled from the spec: \<open>s.add(k)\<close> at the time \<open>now\<close>; the expiry is \<open>now\<close> plus the time-to-live.\<close>

definition ExpiringSet_add :: "ExpiringSet \<Rightarrow> int \<Rightarrow> nat \<Rightarrow> ExpiringSet" where
  "ExpiringSet_add s k now = s\<lparr>entries := (entries s)(k \<mapsto> now + max_age_seconds s)\<rparr>"

text \<open>
  The class \<open>qBitManager\<close>. The type \<open>'v\<close> is \<open>packaging\<close>'s \<open>Version\<close>, of which main.py
  uses the comparison \<open>\<le>\<close> only: a linear order. \<open>min_supported_version\<close> and
  \<open>max_supported_version\<close> are the class attributes, read through \<open>self\<close>. The type \<open>'a\<close>
  is a managed object of the \<open>ArrManager\<close>; \<open>arr_manager\<close> holds
  \<open>managed_objects.values()\<close> in iteration order. The attributes \<open>client\<close>, \<open>logger\<close>,
  \<open>cache\<close>, \<open>name_cache\<close> and \<open>ffprobe_downloader\<close> are never read for a decision and
  are left out.
\<close>

record ('v, 'a) qBitManager =
  min_supported_version :: 'v
  max_supported_version :: 'v
  qBit_Host :: cfg
  qBit_Port :: cfg
  qBit_UserName :: cfg
  qBit_Password :: cfg
  current_qbit_version :: 'v
  validated_version :: bool
  expiring_bool :: ExpiringSet
  should_delay_torrent_scan :: bool
  child_processes :: "handle list"
  arr_manager :: "'a list"

text \<open>
  The collaborators outside main.py. Each answer may depend on the trace so far, so the
  same call can answer differently at different moments:
  \<^item> \<open>CONFIG\<close>: the configuration; \<open>process_flags\<close>; \<open>patched_version\<close>;
  \<^item> \<open>client_app_version\<close>: what \<open>self.client.app_version()\<close> returns or raises;
  \<^item> \<open>version_parser_parse\<close>: \<open>packaging.version.parse\<close>;
  \<^item> \<open>ffprobe_downloader_update\<close>: \<open>FFprobeDownloader.update\<close>, \<open>None\<close> when it returns;
  \<^item> \<open>build_arr_instances\<close>: \<open>ArrManager(self).build_arr_instances()\<close>;
  \<^item> \<open>spawn_child_processes\<close>: the method of a managed object. It returns the pair
    \<open>(numb, processes)\<close> or raises. The managed object holds a reference to the manager
    (\<open>ArrManager(self)\<close>), so the call takes the manager's \<open>child_processes\<close> and
    gives back what that attribute holds afterwards;
  \<^item> \<open>proc\<close>: what an operation of a handle does, \<open>None\<close> when it returns;
  \<^item> \<open>time_time\<close>: the clock.
\<close>

record ('v, 'a) env =
  CONFIG :: "string \<rightharpoonup> cfg"
  process_flags :: "'v trace \<Rightarrow> exn + bool"
  patched_version :: string
  client_app_version :: "'v trace \<Rightarrow> exn + string"
  version_parser_parse :: "string \<Rightarrow> exn + 'v"
  ffprobe_downloader_update :: "'v trace \<Rightarrow> exn option"
  build_arr_instances :: "'v trace \<Rightarrow> exn + 'a list"
  spawn_child_processes :: "'a \<Rightarrow> handle list \<Rightarrow> (exn + nat \<times> handle list) \<times> handle list"
  proc :: "'v trace \<Rightarrow> proc_op \<Rightarrow> handle \<Rightarrow> exn option"
  time_time :: "'v trace \<Rightarrow> nat"

definition CONFIG_get :: "('v, 'a) env \<Rightarrow> string \<Rightarrow> cfg \<Rightarrow> cfg" where
  "CONFIG_get e key fallback = (case CONFIG e key of None \<Rightarrow> fallback | Some v \<Rightarrow> v)"

section \<open>The version gate\<close>

text \<open>
  \<open>qBitManager._version_validator\<close>. \<open>sys.exit(1)\<close> raises \<open>SystemExit 1\<close>.
\<close>

definition version_validator ::
  "('v::linorder, 'a) qBitManager \<Rightarrow> 'v trace \<Rightarrow> (exn + unit) \<times> 'v trace" where
  "version_validator self t =
    (if min_supported_version self \<le> current_qbit_version self
        \<and> current_qbit_version self \<le> max_supported_version self
     then
       (if validated_version self
        then (Inr (), t @ [Log ''qBitrr.Manager'' HNOTICE
                ''Current qBitTorrent version is supported: %s''
                [AVer (current_qbit_version self)]])
        else (Inr (), t @ [Log ''qBitrr.Manager'' HNOTICE
                ''Could not validate current qBitTorrent version, assuming: %s''
                [AVer (current_qbit_version self)],
              Sleep 10]))
     else (Inl (SystemExit 1),
           t @ [Log ''qBitrr.Manager'' CRITICAL
                ''You are currently running qBitTorrent version %s, Supported version range is %s to %s''
                [AVer (current_qbit_version self), AVer (min_supported_version self),
                 AVer (max_supported_version self)]]))"

section \<open>Construction of the manager\<close>

text \<open>
  \<open>qBitManager.__init__\<close>, lines 35 to 56: the connection parameters and the debug log.
  The record is built here for the first time, with the class attributes \<open>mn\<close> and \<open>mx\<close>;
  an attribute that the constructor assigns only later holds an empty value until its
  assignment, and nothing reads it before.
\<close>

definition init_params ::
  "('v, 'a) env \<Rightarrow> 'v \<Rightarrow> 'v \<Rightarrow> 'v trace \<Rightarrow> ('v, 'a) qBitManager \<times> 'v trace" where
  "init_params e mn mx t =
    (let host = CONFIG_get e ''QBit.Host'' (CStr ''localhost'');
         port = CONFIG_get e ''QBit.Port'' (CInt 8105);
         user = CONFIG_get e ''QBit.UserName'' CNone;
         password = CONFIG_get e ''QBit.Password'' CNone
     in (\<lparr>min_supported_version = mn, max_supported_version = mx,
          qBit_Host = host, qBit_Port = port,
          qBit_UserName = user, qBit_Password = password,
          current_qbit_version = mn, validated_version = False,
          expiring_bool = ExpiringSet_init 0,
          should_delay_torrent_scan = False,
          child_processes = [], arr_manager = []\<rparr>,
         t @ [Log ''qBitrr.Manager'' DEBUG
                ''QBitTorrent Config: Host: %s Port: %s, Username: %s, Password: %s''
                [ACfg host, ACfg port, ACfg user, ACfg password]]))"

text \<open>
  Lines 57 to 65: the \<open>try\<close> that fetches and parses the version. \<open>fetch_version\<close> is
  the expression \<open>version_parser.parse(self.client.app_version())\<close>;
  \<open>except BaseException\<close> catches every exception, whichever of the two calls raised it.
\<close>

definition fetch_version :: "('v, 'a) env \<Rightarrow> 'v trace \<Rightarrow> exn + 'v" where
  "fetch_version e t =
    (case client_app_version e t of
       Inl x \<Rightarrow> Inl x
     | Inr s \<Rightarrow> version_parser_parse e s)"

definition init_version ::
  "('v, 'a) env \<Rightarrow> ('v, 'a) qBitManager \<Rightarrow> 'v trace \<Rightarrow> ('v, 'a) qBitManager \<times> 'v trace" where
  "init_version e self t =
    (case fetch_version e t of
       Inr v \<Rightarrow>
         (self\<lparr>current_qbit_version := v, validated_version := True\<rparr>, t @ [AppVersion])
     | Inl x \<Rightarrow>
         (self\<lparr>current_qbit_version := min_supported_version self,
               validated_version := False\<rparr>,
          t @ [AppVersion,
               Log ''qBitrr.Manager'' ERROR
                 ''Could not establish qBitTorrent version, you may experience errors, please report this error.''
                 []]))"

text \<open>
  Lines 67 to 80: the liveness cache, the flag, the empty list of child processes, the
  FFprobe update (whose \<open>Exception\<close>s are logged, anything else propagates) and the
  \<open>ArrManager\<close>.
\<close>

definition init_rest ::
  "('v, 'a) env \<Rightarrow> ('v, 'a) qBitManager \<Rightarrow> 'v trace \<Rightarrow> (exn + ('v, 'a) qBitManager) \<times> 'v trace" where
  "init_rest e self t =
    (let self1 = self\<lparr>expiring_bool := ExpiringSet_init 10,
                       should_delay_torrent_scan := False,
                       child_processes := []\<rparr>
     in case (case ffprobe_downloader_update e t of
                None \<Rightarrow> (Inr (), t)
              | Some x \<Rightarrow>
                  if is_Exception x
                  then (Inr (), t @ [Log ''qBitrr.Manager'' ERROR
                          ''FFprobe manager error: %s while attempting to download/update FFprobe''
                          [AExn x]])
                  else (Inl x, t)) of
          (Inl x, t1) \<Rightarrow> (Inl x, t1)
        | (Inr _, t1) \<Rightarrow>
            (case build_arr_instances e t1 of
               Inl x \<Rightarrow> (Inl x, t1)
             | Inr arrs \<Rightarrow> (Inr (self1\<lparr>arr_manager := arrs\<rparr>), t1)))"

text \<open>
  \<open>qBitManager.__init__\<close> as a whole: the three parts around the call of
  \<open>_version_validator\<close> in line 66.
\<close>

definition init ::
  "('v::linorder, 'a) env \<Rightarrow> 'v \<Rightarrow> 'v \<Rightarrow> 'v trace \<Rightarrow> (exn + ('v, 'a) qBitManager) \<times> 'v trace" where
  "init e mn mx t =
    (case init_params e mn mx t of
       (self0, t0) \<Rightarrow>
         (case init_version e self0 t0 of
            (self, t1) \<Rightarrow>
              (case version_validator self t1 of
                 (Inl x, t2) \<Rightarrow> (Inl x, t2)
               | (Inr _, t2) \<Rightarrow> init_rest e self t2)))"

section \<open>The liveness probe\<close>

text \<open>
  The property \<open>qBitManager.is_alive\<close>: the result or the exception, the manager
  afterwards, and the trace. The sentinel key is \<open>1\<close>.
\<close>

definition is_alive ::
  "('v, 'a) env \<Rightarrow> ('v, 'a) qBitManager \<Rightarrow> 'v trace
    \<Rightarrow> (exn + bool) \<times> ('v, 'a) qBitManager \<times> 'v trace" where
  "is_alive e self t =
    (if ExpiringSet_contains (expiring_bool self) 1 (time_time e t)
     then (Inr True, self, t)
     else
       (case client_app_version e t of
          Inr _ \<Rightarrow>
            (let t1 = t @ [AppVersion,
                           Log ''qBitrr.Manager'' TRACE ''Successfully connected to %s:%s''
                             [ACfg (qBit_Host self), ACfg (qBit_Port self)]]
             in (Inr True,
                 self\<lparr>expiring_bool := ExpiringSet_add (expiring_bool self) 1 (time_time e t1)\<rparr>,
                 t1))
        | Inl x \<Rightarrow>
            if is_RequestException x
            then (Inr False,
                  self\<lparr>should_delay_torrent_scan := True\<rparr>,
                  t @ [AppVersion,
                       Log ''qBitrr.Manager'' WARNING ''Could not connect to %s:%s''
                         [ACfg (qBit_Host self), ACfg (qBit_Port self)]])
            else (Inl x, self, t @ [AppVersion])))"

section \<open>Spawning and running the workers\<close>

text \<open>
  The loop of \<open>qBitManager.get_child_processes\<close>: \<open>count\<close> and \<open>procs\<close> are its local
  variables, \<open>cps\<close> is the manager's \<open>child_processes\<close>, which only the managed objects
  may write.
\<close>

fun spawn_all ::
  "('v, 'a) env \<Rightarrow> 'a list \<Rightarrow> nat \<Rightarrow> handle list \<Rightarrow> handle list
    \<Rightarrow> (exn + handle list) \<times> handle list" where
  "spawn_all e [] count procs cps = (Inr procs, cps)"
| "spawn_all e (arr # arrs) count procs cps =
    (case spawn_child_processes e arr cps of
       (Inl x, cps') \<Rightarrow> (Inl x, cps')
     | (Inr (numb, processes), cps') \<Rightarrow>
         spawn_all e arrs (count + numb) (procs @ processes) cps')"

definition get_child_processes ::
  "('v, 'a) env \<Rightarrow> ('v, 'a) qBitManager \<Rightarrow> 'v trace
    \<Rightarrow> (exn + handle list) \<times> ('v, 'a) qBitManager \<times> 'v trace" where
  "get_child_processes e self t =
    (case spawn_all e (arr_manager self) 0 [] (child_processes self) of
       (r, cps) \<Rightarrow>
         (r, self\<lparr>child_processes := cps\<rparr>,
          t @ [Log ''qBitrr.Manager'' HNOTICE ''Managing %s categories''
                 [ANat (length (arr_manager self))]]))"

text \<open>
  A list comprehension \<open>[p.op() for p in ps]\<close>: the calls in list order, up to the first
  one that raises.
\<close>

fun call_all ::
  "('v, 'a) env \<Rightarrow> proc_op \<Rightarrow> handle list \<Rightarrow> 'v trace \<Rightarrow> (exn + unit) \<times> 'v trace" where
  "call_all e op [] t = (Inr (), t)"
| "call_all e op (p # ps) t =
    (case proc e t op p of
       Some x \<Rightarrow> (Inl x, t @ [Proc op p])
     | None \<Rightarrow> call_all e op ps (t @ [Proc op p]))"

text \<open>The body of the \<open>try\<close> of \<open>qBitManager.run\<close>, and the method with its two handlers.\<close>

definition start_join ::
  "('v, 'a) env \<Rightarrow> ('v, 'a) qBitManager \<Rightarrow> 'v trace \<Rightarrow> (exn + unit) \<times> 'v trace" where
  "start_join e self t =
    (let t1 = t @ [Log ''qBitrr.Manager'' NOTICE ''Starting %s child processes''
                     [ANat (length (child_processes self))]]
     in case call_all e Start (child_processes self) t1 of
          (Inl x, t2) \<Rightarrow> (Inl x, t2)
        | (Inr _, t2) \<Rightarrow> call_all e Join (child_processes self) t2)"

definition qBitManager_run ::
  "('v, 'a) env \<Rightarrow> ('v, 'a) qBitManager \<Rightarrow> 'v trace \<Rightarrow> (exn + unit) \<times> 'v trace" where
  "qBitManager_run e self t =
    (case start_join e self t of
       (Inr _, t1) \<Rightarrow> (Inr (), t1)
     | (Inl x, t1) \<Rightarrow>
         if x = KeyboardInterrupt
         then (Inl (SystemExit 0),
               t1 @ [Log ''qBitrr.Manager'' HNOTICE ''Detected Ctrl+C - Terminating process'' []])
         else (Inl (SystemExit 1),
               t1 @ [Log ''qBitrr.Manager'' HNOTICE
                       ''Detected Ctrl+C - Terminating process: %r'' [AExn x]]))"

section \<open>The module: run, cleanup and the exit hook\<close>

text \<open>
  The body of the \<open>try\<close> of the module's \<open>run\<close>. The state is the manager, the global
  \<open>CHILD_PROCESSES\<close> (assigned only when \<open>get_child_processes\<close> returns) and the trace.
\<close>

definition run_body ::
  "('v, 'a) env \<Rightarrow> ('v, 'a) qBitManager \<Rightarrow> handle list \<Rightarrow> 'v trace
    \<Rightarrow> (exn + unit) \<times> ('v, 'a) qBitManager \<times> handle list \<times> 'v trace" where
  "run_body e manager cp t =
    (case get_child_processes e manager t of
       (Inl x, manager', t1) \<Rightarrow> (Inl x, manager', cp, t1)
     | (Inr procs, manager', t1) \<Rightarrow>
         (case qBitManager_run e manager' t1 of
            (r, t2) \<Rightarrow> (r, manager', procs, t2)))"

text \<open>
  The \<open>try\<close> statement with its handlers: \<open>KeyboardInterrupt\<close> exits with status 0, an
  \<open>Exception\<close> is answered by \<open>kill\<close> on the manager's \<open>child_processes\<close>, anything else
  (a \<open>SystemExit\<close> among them) passes through.
\<close>

definition run_try ::
  "('v, 'a) env \<Rightarrow> ('v, 'a) qBitManager \<Rightarrow> handle list \<Rightarrow> 'v trace
    \<Rightarrow> (exn + unit) \<times> handle list \<times> 'v trace" where
  "run_try e manager cp t =
    (case run_body e manager cp t of
       (Inr _, manager', cp', t1) \<Rightarrow> (Inr (), cp', t1)
     | (Inl x, manager', cp', t1) \<Rightarrow>
         if x = KeyboardInterrupt
         then (Inl (SystemExit 0), cp',
               t1 @ [Log ''qBitrr'' HNOTICE ''Detected Ctrl+C - Terminating process'' []])
         else if is_Exception x
         then (case call_all e Kill (child_processes manager')
                     (t1 @ [Log ''qBitrr'' NOTICE
                        ''Attempting to terminate child processes, please wait a moment.'' []]) of
                 (r, t2) \<Rightarrow> (r, cp', t2))
         else (Inl x, cp', t1))"

text \<open>The module's \<open>run\<close>; \<open>cp\<close> is the global \<open>CHILD_PROCESSES\<close> when it is called.\<close>

definition run ::
  "('v::linorder, 'a) env \<Rightarrow> 'v \<Rightarrow> 'v \<Rightarrow> handle list \<Rightarrow> 'v trace
    \<Rightarrow> (exn + unit) \<times> handle list \<times> 'v trace" where
  "run e mn mx cp t =
    (case process_flags e t of
       Inl x \<Rightarrow> (Inl x, cp, t)
     | Inr early_exit \<Rightarrow>
         if early_exit then (Inl (SystemExit 0), cp, t)
         else
           (case init e mn mx
                   (t @ [Log ''qBitrr'' NOTICE ''Starting qBitrr: Version: %s.''
                           [AStr (patched_version e)]]) of
              (Inl x, t1) \<Rightarrow> (Inl x, cp, t1)
            | (Inr manager, t1) \<Rightarrow> run_try e manager cp t1))"

text \<open>\<open>cleanup\<close>, over the global \<open>CHILD_PROCESSES\<close>: \<open>kill\<close>, then \<open>terminate\<close>.\<close>

fun cleanup :: "('v, 'a) env \<Rightarrow> handle list \<Rightarrow> 'v trace \<Rightarrow> (exn + unit) \<times> 'v trace" where
  "cleanup e [] t = (Inr (), t)"
| "cleanup e (p # ps) t =
    (case proc e t Kill p of
       Some x \<Rightarrow> (Inl x, t @ [Proc Kill p])
     | None \<Rightarrow>
         (case proc e (t @ [Proc Kill p]) Terminate p of
            Some x \<Rightarrow> (Inl x, t @ [Proc Kill p, Proc Terminate p])
          | None \<Rightarrow> cleanup e ps (t @ [Proc Kill p, Proc Terminate p])))"

text \<open>
  The program: \<open>CHILD_PROCESSES = []\<close>, \<open>run()\<close>, and at interpreter exit the registered
  \<open>cleanup\<close>, whose own exceptions are reported and dropped. The outcome of \<open>run\<close> decides
  the exit status: \<open>Inl (SystemExit n)\<close> is status \<open>n\<close>.
\<close>

definition main ::
  "('v::linorder, 'a) env \<Rightarrow> 'v \<Rightarrow> 'v \<Rightarrow> (exn + unit) \<times> 'v trace" where
  "main e mn mx =
    (case run e mn mx [] [] of
       (r, cp, t) \<Rightarrow> (r, snd (cleanup e cp t)))"

section \<open>Started handles\<close>

text \<open>
  A handle is started in a trace when one of the \<open>start\<close> calls on it in that trace
  returned. The trace records the calls, and the collaborator \<open>proc\<close>, asked at the trace
  before the call, tells whether the call returned. \<open>started_from e pre t p\<close> reads the
  events of \<open>t\<close> that follow the events \<open>pre\<close>.
\<close>

fun started_from :: "('v, 'a) env \<Rightarrow> 'v trace \<Rightarrow> 'v trace \<Rightarrow> handle \<Rightarrow> bool" where
  "started_from e pre [] p = False"
| "started_from e pre (ev # t) p =
    ((ev = Proc Start p \<and> proc e pre Start p = None) \<or> started_from e (pre @ [ev]) t p)"

definition started :: "('v, 'a) env \<Rightarrow> 'v trace \<Rightarrow> handle \<Rightarrow> bool" where
  "started e t p = started_from e [] t p"

text \<open>The calls of \<open>cleanup\<close> on a list of handles when none of them raises.\<close>

definition kill_terminate :: "handle list \<Rightarrow> 'v trace" where
  "kill_terminate ps = concat (map (\<lambda>p. [Proc Kill p, Proc Terminate p]) ps)"

section \<open>Concrete collaborators\<close>

text \<open>
  Versions as release tuples under the lexicographic order, the supported range being
  \<open>[4, 3, 4]\<close> to \<open>[4, 4]\<close> (\<open>VersionClass("4.3.4")\<close> and \<open>VersionClass("4.4")\<close>), and
  managed objects as numbers. \<open>env_ok\<close>: a reachable qBitTorrent 4.3.5, two managed
  objects, each of which spawns one worker named after itself and registers it with the
  manager, and handles whose operations all return. The other environments change one
  collaborator each.
\<close>

definition env_ok :: "(nat list, nat) env" where
  "env_ok =
    \<lparr>CONFIG = [''QBit.Host'' \<mapsto> CStr ''nas''],
     process_flags = (\<lambda>_. Inr False),
     patched_version = ''2.1.0'',
     client_app_version = (\<lambda>_. Inr ''v4.3.5''),
     version_parser_parse =
       (\<lambda>s. if s = ''v4.3.5'' then Inr [4, 3, 5] else Inl (OtherException ''InvalidVersion'')),
     ffprobe_downloader_update = (\<lambda>_. None),
     build_arr_instances = (\<lambda>_. Inr [7, 8]),
     spawn_child_processes = (\<lambda>arr cps. (Inr (1, [arr]), cps @ [arr])),
     proc = (\<lambda>_ _ _. None),
     time_time = length\<rparr>"

definition env_unreachable :: "(nat list, nat) env" where
  "env_unreachable =
     env_ok\<lparr>client_app_version := (\<lambda>_. Inl (RequestException ''ConnectionError''))\<rparr>"

text \<open>
  A handle as \<open>multiprocess.Process\<close> implements it, for the handles whose \<open>start\<close>
  fails being given by \<open>fails\<close>: \<open>start\<close> raises \<open>OSError\<close> on those and refuses a
  second call on the others; \<open>join\<close>, \<open>kill\<close> and \<open>terminate\<close> return on a handle that
  was started, running or stopped, and raise on one that was never started (\<open>join\<close> by an
  assertion, \<open>kill\<close> and \<open>terminate\<close> with \<open>AttributeError\<close>, the inner process
  object being \<open>None\<close>).
\<close>

definition Process_op ::
  "(handle \<Rightarrow> bool) \<Rightarrow> 'v trace \<Rightarrow> proc_op \<Rightarrow> handle \<Rightarrow> exn option" where
  "Process_op fails t op p =
    (if op = Start
     then (if fails p then Some (OtherException ''OSError'')
           else if Proc Start p \<in> set t then Some (OtherException ''AssertionError'')
           else None)
     else if Proc Start p \<in> set t \<and> \<not> fails p then None
     else if op = Join then Some (OtherException ''AssertionError'')
     else Some (OtherException ''AttributeError''))"

definition env_process :: "(nat list, nat) env" where
  "env_process = env_ok\<lparr>proc := Process_op (\<lambda>p. False)\<rparr>"

definition env_start_fails :: "(nat list, nat) env" where
  "env_start_fails = env_ok\<lparr>proc := Process_op (\<lambda>p. p = 8)\<rparr>"

definition env_login_failed :: "(nat list, nat) env" where
  "env_login_failed =
     env_ok\<lparr>client_app_version := (\<lambda>_. Inl (ApplicationRequestException ''LoginFailed''))\<rparr>"

definition manager_at :: "nat list \<Rightarrow> bool \<Rightarrow> (nat list, nat) qBitManager" where
  "manager_at v validated =
    \<lparr>min_supported_version = [4, 3, 4], max_supported_version = [4, 4],
     qBit_Host = CStr ''nas'', qBit_Port = CInt 8105,
     qBit_UserName = CNone, qBit_Password = CNone,
     current_qbit_version = v, validated_version = validated,
     expiring_bool = ExpiringSet_init 10,
     should_delay_torrent_scan = False,
     child_processes = [], arr_manager = [7, 8]\<rparr>"

definition env_interrupted :: "(nat list, nat) env" where
  "env_interrupted =
     env_ok\<lparr>proc := (\<lambda>_ op p. if op = Join \<and> p = 8 then Some KeyboardInterrupt else None)\<rparr>"

definition env_join_fails :: "(nat list, nat) env" where
  "env_join_fails =
     env_ok\<lparr>proc := (\<lambda>_ op p. if op = Join \<and> p = 7 then Some (OtherException ''OSError'') else None)\<rparr>"

definition env_spawn_interrupted :: "(nat list, nat) env" where
  "env_spawn_interrupted =
     env_ok\<lparr>spawn_child_processes := (\<lambda>arr cps. (Inl KeyboardInterrupt, cps))\<rparr>"

section \<open>Properties\<close>

subsection \<open>Calls over a list of handles\<close>

lemma call_all_ok:
  "(\<forall>t. \<forall>p\<in>set ps. proc e t op p = None) \<Longrightarrow>
     call_all e op ps t = (Inr (), t @ map (Proc op) ps)"
  by (induction ps arbitrary: t) auto

lemma call_all_Inr:
  "call_all e op ps t = (Inr u, t') \<Longrightarrow> t' = t @ map (Proc op) ps"
proof (induction ps arbitrary: t)
  case Nil
  then show ?case by simp
next
  case (Cons p ps)
  from Cons.prems have "call_all e op ps (t @ [Proc op p]) = (Inr u, t')"
    by (simp split: option.splits)
  from Cons.IH [OF this] show ?case by simp
qed

text \<open>\<open>cleanup\<close> has no \<open>try\<close>: the first call that raises ends it.\<close>

lemma cleanup_kill_raises:
  "proc e t Kill p = Some x \<Longrightarrow> cleanup e (p # ps) t = (Inl x, t @ [Proc Kill p])"
  by simp

subsection \<open>The version gate\<close>

text \<open>
  C2. For every observed version and every supported range: a version inside the range,
  the endpoints included, makes the validator return, so that the process continues; a
  version below the minimum or above the maximum makes it log one critical message whose
  arguments are the observed version and both bounds, and leave by \<open>sys.exit(1)\<close>.
\<close>

theorem version_validator_range:
  fixes self :: "('v::linorder, 'a) qBitManager"
  shows "(min_supported_version self \<le> current_qbit_version self
            \<and> current_qbit_version self \<le> max_supported_version self
          \<longrightarrow> fst (version_validator self t) = Inr ())
       \<and> (current_qbit_version self < min_supported_version self
            \<or> max_supported_version self < current_qbit_version self
          \<longrightarrow> version_validator self t =
                (Inl (SystemExit 1),
                 t @ [Log ''qBitrr.Manager'' CRITICAL
                        ''You are currently running qBitTorrent version %s, Supported version range is %s to %s''
                        [AVer (current_qbit_version self), AVer (min_supported_version self),
                         AVer (max_supported_version self)]]))"
  by (auto simp: version_validator_def)

theorem version_validator_range_witness:
  "fst (version_validator (manager_at [4, 3, 4] True) []) = Inr ()
   \<and> fst (version_validator (manager_at [4, 4] True) []) = Inr ()
   \<and> fst (version_validator (manager_at [4, 3, 9] False) []) = Inr ()
   \<and> version_validator (manager_at [4, 5, 0] True) [] =
       (Inl (SystemExit 1),
        [Log ''qBitrr.Manager'' CRITICAL
           ''You are currently running qBitTorrent version %s, Supported version range is %s to %s''
           [AVer [4, 5, 0], AVer [4, 3, 4], AVer [4, 4]]])
   \<and> fst (version_validator (manager_at [4, 3, 3] True) []) = Inl (SystemExit 1)"
  using version_validator_range [of "manager_at [4, 3, 4] True" "[]"]
    version_validator_range [of "manager_at [4, 4] True" "[]"]
    version_validator_range [of "manager_at [4, 3, 9] False" "[]"]
    version_validator_range [of "manager_at [4, 5, 0] True" "[]"]
    version_validator_range [of "manager_at [4, 3, 3] True" "[]"]
  by (simp add: manager_at_def)

text \<open>
  C6. For every observed version inside the range whose validated flag is false, the
  validator logs that the version could not be validated, sleeps for 10 seconds and
  returns without terminating the process.
\<close>

theorem version_validator_unvalidated:
  fixes self :: "('v::linorder, 'a) qBitManager"
  assumes "min_supported_version self \<le> current_qbit_version self"
    and "current_qbit_version self \<le> max_supported_version self"
    and "\<not> validated_version self"
  shows "version_validator self t =
           (Inr (),
            t @ [Log ''qBitrr.Manager'' HNOTICE
                   ''Could not validate current qBitTorrent version, assuming: %s''
                   [AVer (current_qbit_version self)],
                 Sleep 10])"
  using assms by (simp add: version_validator_def)

theorem version_validator_unvalidated_witness:
  "version_validator (manager_at [4, 3, 4] False) [] =
     (Inr (),
      [Log ''qBitrr.Manager'' HNOTICE
         ''Could not validate current qBitTorrent version, assuming: %s'' [AVer [4, 3, 4]],
       Sleep 10])"
  using version_validator_unvalidated [of "manager_at [4, 3, 4] False" "[]"]
  by (simp add: manager_at_def)

subsection \<open>Construction\<close>

lemma init_params_attrs:
  "init_params e mn mx t = (self, t') \<Longrightarrow>
     min_supported_version self = mn \<and> max_supported_version self = mx"
  by (auto simp: init_params_def Let_def)

lemma init_version_attrs:
  "init_version e self t = (self', t') \<Longrightarrow>
     min_supported_version self' = min_supported_version self
     \<and> max_supported_version self' = max_supported_version self"
  by (auto simp: init_version_def split: sum.splits)

lemma init_rest_attrs:
  "init_rest e self t = (Inr self', t') \<Longrightarrow>
     min_supported_version self' = min_supported_version self
     \<and> max_supported_version self' = max_supported_version self
     \<and> current_qbit_version self' = current_qbit_version self
     \<and> validated_version self' = validated_version self"
  by (auto simp: init_rest_def Let_def split: sum.splits option.splits if_splits prod.splits)

lemma version_validator_Inr:
  "version_validator self t = (Inr u, t') \<Longrightarrow>
     min_supported_version self \<le> current_qbit_version self
     \<and> current_qbit_version self \<le> max_supported_version self"
  by (auto simp: version_validator_def split: if_splits)

lemma init_env_ok:
  "init env_ok [4, 3, 4] [4, 4] [] =
     (Inr (manager_at [4, 3, 5] True),
      [Log ''qBitrr.Manager'' DEBUG
         ''QBitTorrent Config: Host: %s Port: %s, Username: %s, Password: %s''
         [ACfg (CStr ''nas''), ACfg (CInt 8105), ACfg CNone, ACfg CNone],
       AppVersion,
       Log ''qBitrr.Manager'' HNOTICE ''Current qBitTorrent version is supported: %s''
         [AVer [4, 3, 5]]])"
  by (simp add: init_def init_params_def init_version_def init_rest_def fetch_version_def
      version_validator_def env_ok_def CONFIG_get_def manager_at_def Let_def)

lemma init_env_unreachable:
  "init env_unreachable [4, 3, 4] [4, 4] [] =
     (Inr (manager_at [4, 3, 4] False),
      [Log ''qBitrr.Manager'' DEBUG
         ''QBitTorrent Config: Host: %s Port: %s, Username: %s, Password: %s''
         [ACfg (CStr ''nas''), ACfg (CInt 8105), ACfg CNone, ACfg CNone],
       AppVersion,
       Log ''qBitrr.Manager'' ERROR
         ''Could not establish qBitTorrent version, you may experience errors, please report this error.''
         [],
       Log ''qBitrr.Manager'' HNOTICE
         ''Could not validate current qBitTorrent version, assuming: %s'' [AVer [4, 3, 4]],
       Sleep 10])"
  by (simp add: init_def init_params_def init_version_def init_rest_def fetch_version_def
      version_validator_def env_ok_def env_unreachable_def CONFIG_get_def manager_at_def Let_def)

text \<open>
  C10. Whenever the constructor returns a manager, on the validated path or on the
  fallback path, the stored version lies between the minimum and maximum supported
  versions, which are the class attributes it was built with.
\<close>

theorem init_version_in_range:
  fixes e :: "('v::linorder, 'a) env"
  assumes "init e mn mx t = (Inr self, t')"
  shows "min_supported_version self = mn \<and> max_supported_version self = mx
         \<and> min_supported_version self \<le> current_qbit_version self
         \<and> current_qbit_version self \<le> max_supported_version self"
proof -
  obtain self0 t0 where p: "init_params e mn mx t = (self0, t0)" by (cases "init_params e mn mx t")
  obtain self1 t1 where v: "init_version e self0 t0 = (self1, t1)" by (cases "init_version e self0 t0")
  obtain r t2 where g: "version_validator self1 t1 = (r, t2)" by (cases "version_validator self1 t1")
  from assms p v g obtain u where r: "r = Inr u" and rest: "init_rest e self1 t2 = (Inr self, t')"
    by (cases r) (auto simp: init_def)
  from g r have "min_supported_version self1 \<le> current_qbit_version self1
     \<and> current_qbit_version self1 \<le> max_supported_version self1"
    using version_validator_Inr by blast
  moreover from init_params_attrs[OF p] init_version_attrs[OF v]
  have "min_supported_version self1 = mn \<and> max_supported_version self1 = mx" by simp
  ultimately show ?thesis using init_rest_attrs[OF rest] by simp
qed

theorem init_version_in_range_witness:
  "fst (init env_ok [4, 3, 4] [4, 4] []) = Inr (manager_at [4, 3, 5] True)
   \<and> fst (init env_unreachable [4, 3, 4] [4, 4] []) = Inr (manager_at [4, 3, 4] False)
   \<and> [4, 3, 4] \<le> current_qbit_version (manager_at [4, 3, 5] True)
   \<and> current_qbit_version (manager_at [4, 3, 5] True) \<le> [4, 4]
   \<and> [4, 3, 4] \<le> current_qbit_version (manager_at [4, 3, 4] False)
   \<and> current_qbit_version (manager_at [4, 3, 4] False) \<le> [4, 4]"
  using init_version_in_range [OF init_env_ok] init_version_in_range [OF init_env_unreachable]
    init_env_ok init_env_unreachable
  by (simp add: manager_at_def)

text \<open>
  C5. When fetching or parsing the version raises, whatever the exception, the stored
  version becomes the minimum supported version, the validated flag becomes false, an
  error is logged, and the constructor goes on with the version gate applied to exactly
  that state.
\<close>

theorem init_fetch_failure:
  fixes e :: "('v::linorder, 'a) env"
  assumes "fetch_version e t0 = Inl x"
  shows "init_version e self t0 =
           (self\<lparr>current_qbit_version := min_supported_version self,
                 validated_version := False\<rparr>,
            t0 @ [AppVersion,
                  Log ''qBitrr.Manager'' ERROR
                    ''Could not establish qBitTorrent version, you may experience errors, please report this error.''
                    []])
         \<and> (init_params e mn mx t = (self, t0) \<longrightarrow>
             init e mn mx t =
               (case version_validator
                       (self\<lparr>current_qbit_version := mn, validated_version := False\<rparr>)
                       (t0 @ [AppVersion,
                              Log ''qBitrr.Manager'' ERROR
                                ''Could not establish qBitTorrent version, you may experience errors, please report this error.''
                                []]) of
                  (Inl y, t2) \<Rightarrow> (Inl y, t2)
                | (Inr u, t2) \<Rightarrow>
                    init_rest e
                      (self\<lparr>current_qbit_version := mn, validated_version := False\<rparr>) t2))"
proof (intro conjI impI)
  from assms show "init_version e self t0 =
           (self\<lparr>current_qbit_version := min_supported_version self,
                 validated_version := False\<rparr>,
            t0 @ [AppVersion,
                  Log ''qBitrr.Manager'' ERROR
                    ''Could not establish qBitTorrent version, you may experience errors, please report this error.''
                    []])"
    by (simp add: init_version_def)
next
  assume p: "init_params e mn mx t = (self, t0)"
  with assms init_params_attrs [OF p]
  show "init e mn mx t =
               (case version_validator
                       (self\<lparr>current_qbit_version := mn, validated_version := False\<rparr>)
                       (t0 @ [AppVersion,
                              Log ''qBitrr.Manager'' ERROR
                                ''Could not establish qBitTorrent version, you may experience errors, please report this error.''
                                []]) of
                  (Inl y, t2) \<Rightarrow> (Inl y, t2)
                | (Inr u, t2) \<Rightarrow>
                    init_rest e
                      (self\<lparr>current_qbit_version := mn, validated_version := False\<rparr>) t2)"
    by (simp add: init_def init_version_def)
qed

theorem init_fetch_failure_witness:
  "fetch_version env_unreachable [] = Inl (RequestException ''ConnectionError'')
   \<and> init_version env_unreachable (manager_at [4, 3, 9] True) [] =
       (manager_at [4, 3, 4] False,
        [AppVersion,
         Log ''qBitrr.Manager'' ERROR
           ''Could not establish qBitTorrent version, you may experience errors, please report this error.''
           []])
   \<and> fst (init env_unreachable [4, 3, 4] [4, 4] []) = Inr (manager_at [4, 3, 4] False)"
proof -
  let ?p = "init_params env_unreachable [4, 3, 4] [4, 4] []"
  have f0: "fetch_version env_unreachable [] = Inl (RequestException ''ConnectionError'')"
    by (simp add: fetch_version_def env_unreachable_def env_ok_def)
  have f: "fetch_version env_unreachable (snd ?p) = Inl (RequestException ''ConnectionError'')"
    by (simp add: fetch_version_def env_unreachable_def env_ok_def)
  have p: "?p = (fst ?p, snd ?p)"
    by simp
  note w1 = conjunct1 [OF init_fetch_failure [OF f0, of "manager_at [4, 3, 9] True"]]
  note w2 = mp [OF conjunct2 [OF init_fetch_failure [OF f]] p]
  from w1 w2 f0 show ?thesis
    by (simp add: manager_at_def init_params_def version_validator_def init_rest_def
        CONFIG_get_def env_unreachable_def env_ok_def Let_def)
qed

subsection \<open>The liveness probe\<close>

lemma ExpiringSet_contains_add:
  "ExpiringSet_contains (ExpiringSet_add s k now) k now' \<longleftrightarrow> now' < now + max_age_seconds s"
  by (simp add: ExpiringSet_contains_def ExpiringSet_add_def)

text \<open>
  C3, as amended. When the sentinel is not in the cache, so that \<open>is_alive\<close> makes the
  version call, and the call raises: a failure of the network layer, and likewise every
  other instance of \<open>requests.RequestException\<close>, makes \<open>is_alive\<close> log a warning,
  set \<open>should_delay_torrent_scan\<close> and return \<open>False\<close>; an exception that is not an
  instance of \<open>requests.RequestException\<close> leaves \<open>is_alive\<close> as it was raised, the
  manager unchanged.
\<close>

theorem is_alive_failure:
  assumes "\<not> ExpiringSet_contains (expiring_bool self) 1 (time_time e t)"
    and "client_app_version e t = Inl x"
  shows "(is_network_failure x \<longrightarrow>
            fst (is_alive e self t) = Inr False
            \<and> should_delay_torrent_scan (fst (snd (is_alive e self t))))
       \<and> (is_RequestException x \<longrightarrow>
            is_alive e self t =
              (Inr False, self\<lparr>should_delay_torrent_scan := True\<rparr>,
               t @ [AppVersion,
                    Log ''qBitrr.Manager'' WARNING ''Could not connect to %s:%s''
                      [ACfg (qBit_Host self), ACfg (qBit_Port self)]]))
       \<and> (\<not> is_RequestException x \<longrightarrow>
            is_alive e self t = (Inl x, self, t @ [AppVersion]))"
  using assms by (cases x) (simp_all add: is_alive_def)

theorem is_alive_failure_witness:
  "fst (is_alive env_unreachable (manager_at [4, 3, 5] True) []) = Inr False
   \<and> should_delay_torrent_scan (fst (snd (is_alive env_unreachable (manager_at [4, 3, 5] True) [])))
   \<and> fst (is_alive env_login_failed (manager_at [4, 3, 5] True) []) = Inr False
   \<and> is_alive (env_ok\<lparr>client_app_version := (\<lambda>_. Inl (OtherException ''TypeError''))\<rparr>)
        (manager_at [4, 3, 5] True) [] =
      (Inl (OtherException ''TypeError''), manager_at [4, 3, 5] True, [AppVersion])"
  using is_alive_failure [of "manager_at [4, 3, 5] True" env_unreachable "[]"
      "RequestException ''ConnectionError''"]
    is_alive_failure [of "manager_at [4, 3, 5] True" env_login_failed "[]"
      "ApplicationRequestException ''LoginFailed''"]
    is_alive_failure [of "manager_at [4, 3, 5] True"
      "env_ok\<lparr>client_app_version := (\<lambda>_. Inl (OtherException ''TypeError''))\<rparr>" "[]"
      "OtherException ''TypeError''"]
  by (simp add: manager_at_def env_unreachable_def env_login_failed_def env_ok_def
      ExpiringSet_contains_def ExpiringSet_init_def)

text \<open>
  The claim C3 lets every exception that is not a network failure propagate. A failed
  login is not a network failure, but its class derives from
  \<open>requests.RequestException\<close>: \<open>is_alive\<close> catches it, sets the flag and returns
  \<open>False\<close>.
\<close>

theorem is_alive_login_failed_counterexample:
  "client_app_version env_login_failed [] = Inl (ApplicationRequestException ''LoginFailed'')
   \<and> \<not> is_network_failure (ApplicationRequestException ''LoginFailed'')
   \<and> is_alive env_login_failed (manager_at [4, 3, 5] True) [] =
       (Inr False,
        (manager_at [4, 3, 5] True)\<lparr>should_delay_torrent_scan := True\<rparr>,
        [AppVersion,
         Log ''qBitrr.Manager'' WARNING ''Could not connect to %s:%s''
           [ACfg (CStr ''nas''), ACfg (CInt 8105)]])"
  by (simp add: is_alive_def manager_at_def env_login_failed_def env_ok_def
      ExpiringSet_contains_def ExpiringSet_init_def)

text \<open>
  C4. When the sentinel is in the cache and not expired, \<open>is_alive\<close> returns \<open>True\<close>
  and makes no version call: manager and trace are unchanged. When the sentinel is absent and
  the version call returns, \<open>is_alive\<close> makes the call, adds the sentinel with a full
  time-to-live from that moment and returns \<open>True\<close>.
\<close>

theorem is_alive_cached:
  "(ExpiringSet_contains (expiring_bool self) 1 (time_time e t) \<longrightarrow>
      is_alive e self t = (Inr True, self, t))
   \<and> (\<not> ExpiringSet_contains (expiring_bool self) 1 (time_time e t)
        \<and> client_app_version e t = Inr s \<longrightarrow>
      fst (is_alive e self t) = Inr True
      \<and> fst (snd (is_alive e self t)) =
          self\<lparr>expiring_bool :=
                 ExpiringSet_add (expiring_bool self) 1
                   (time_time e (snd (snd (is_alive e self t))))\<rparr>
      \<and> entries (expiring_bool (fst (snd (is_alive e self t)))) 1 =
          Some (time_time e (snd (snd (is_alive e self t)))
                + max_age_seconds (expiring_bool self))
      \<and> snd (snd (is_alive e self t)) =
          t @ [AppVersion,
               Log ''qBitrr.Manager'' TRACE ''Successfully connected to %s:%s''
                 [ACfg (qBit_Host self), ACfg (qBit_Port self)]])"
  by (simp add: is_alive_def ExpiringSet_add_def Let_def)

theorem is_alive_cached_witness:
  "is_alive env_ok (manager_at [4, 3, 5] True) [] =
     (Inr True,
      (manager_at [4, 3, 5] True)
        \<lparr>expiring_bool := ExpiringSet_add (ExpiringSet_init 10) 1 2\<rparr>,
      [AppVersion,
       Log ''qBitrr.Manager'' TRACE ''Successfully connected to %s:%s''
         [ACfg (CStr ''nas''), ACfg (CInt 8105)]])
   \<and> is_alive env_unreachable
        ((manager_at [4, 3, 5] True)
           \<lparr>expiring_bool := ExpiringSet_add (ExpiringSet_init 10) 1 2\<rparr>)
        [AppVersion, Sleep 1] =
      (Inr True,
       (manager_at [4, 3, 5] True)
         \<lparr>expiring_bool := ExpiringSet_add (ExpiringSet_init 10) 1 2\<rparr>,
       [AppVersion, Sleep 1])"
  using is_alive_cached [of "manager_at [4, 3, 5] True" env_ok "[]" "''v4.3.5''"]
    is_alive_cached [of "(manager_at [4, 3, 5] True)
           \<lparr>expiring_bool := ExpiringSet_add (ExpiringSet_init 10) 1 2\<rparr>"
        env_unreachable "[AppVersion, Sleep 1]" "''''"]
  by (simp add: manager_at_def env_unreachable_def env_ok_def ExpiringSet_contains_def
      ExpiringSet_init_def ExpiringSet_add_def prod_eq_iff)

subsection \<open>Running the workers\<close>

text \<open>
  The managed objects register their workers: when \<open>spawn_child_processes\<close> returns, it
  has appended to the manager's \<open>child_processes\<close> exactly the handles it returns. Under
  that condition the list that \<open>get_child_processes\<close> returns is what it has added to
  \<open>child_processes\<close>, which the constructor leaves empty.
\<close>

lemma spawn_all_appends:
  assumes "\<forall>arr cps n ps cps'.
             spawn_child_processes e arr cps = (Inr (n, ps), cps') \<longrightarrow> cps' = cps @ ps"
  shows "spawn_all e arrs count procs cps = (Inr procs', cps') \<Longrightarrow>
           \<exists>new. procs' = procs @ new \<and> cps' = cps @ new"
proof (induction arrs arbitrary: count procs cps)
  case Nil
  then show ?case by simp
next
  case (Cons arr arrs)
  obtain r c where s: "spawn_child_processes e arr cps = (r, c)"
    by (cases "spawn_child_processes e arr cps")
  with Cons.prems obtain n ps where r: "r = Inr (n, ps)"
    by (cases r) auto
  from assms s r have c: "c = cps @ ps" by blast
  from Cons.prems s r c
  have "spawn_all e arrs (count + n) (procs @ ps) (cps @ ps) = (Inr procs', cps')"
    by simp
  from Cons.IH [OF this] obtain new where "procs' = (procs @ ps) @ new" "cps' = (cps @ ps) @ new"
    by blast
  then have "procs' = procs @ (ps @ new) \<and> cps' = cps @ (ps @ new)" by simp
  then show ?case by blast
qed

lemma get_child_processes_appends:
  assumes "\<forall>arr cps n ps cps'.
             spawn_child_processes e arr cps = (Inr (n, ps), cps') \<longrightarrow> cps' = cps @ ps"
    and "get_child_processes e self t = (Inr procs, self', t1)"
  shows "child_processes self' = child_processes self @ procs"
proof -
  obtain r c where s: "spawn_all e (arr_manager self) 0 [] (child_processes self) = (r, c)"
    by (cases "spawn_all e (arr_manager self) 0 [] (child_processes self)")
  with assms(2) have r: "r = Inr procs" and c: "child_processes self' = c"
    by (auto simp: get_child_processes_def)
  from spawn_all_appends [OF assms(1) s [unfolded r]] c show ?thesis by simp
qed

lemma init_child_processes:
  "init e mn mx t = (Inr self, t') \<Longrightarrow> child_processes self = []"
  by (auto simp: init_def init_rest_def Let_def
      split: prod.splits sum.splits option.splits if_splits)

lemma start_join_ok:
  assumes "\<forall>t. \<forall>p\<in>set (child_processes self). proc e t Start p = None \<and> proc e t Join p = None"
  shows "start_join e self t =
     (Inr (),
      t @ [Log ''qBitrr.Manager'' NOTICE ''Starting %s child processes''
             [ANat (length (child_processes self))]]
        @ map (Proc Start) (child_processes self) @ map (Proc Join) (child_processes self))"
proof -
  from assms have s: "\<forall>t. \<forall>p\<in>set (child_processes self). proc e t Start p = None"
    and j: "\<forall>t. \<forall>p\<in>set (child_processes self). proc e t Join p = None"
    by simp_all
  show ?thesis
    by (simp add: start_join_def call_all_ok [OF s] call_all_ok [OF j])
qed

lemma start_join_Inr:
  assumes "start_join e self t = (Inr u, t')"
  shows "t' = t @ [Log ''qBitrr.Manager'' NOTICE ''Starting %s child processes''
             [ANat (length (child_processes self))]]
        @ map (Proc Start) (child_processes self) @ map (Proc Join) (child_processes self)"
proof -
  let ?t1 = "t @ [Log ''qBitrr.Manager'' NOTICE ''Starting %s child processes''
             [ANat (length (child_processes self))]]"
  obtain r t2 where s: "call_all e Start (child_processes self) ?t1 = (r, t2)"
    by (cases "call_all e Start (child_processes self) ?t1")
  with assms obtain v where r: "r = Inr v" and j: "call_all e Join (child_processes self) t2 = (Inr u, t')"
    by (cases r) (auto simp: start_join_def)
  from s r have "t2 = ?t1 @ map (Proc Start) (child_processes self)"
    using call_all_Inr by blast
  moreover from j have "t' = t2 @ map (Proc Join) (child_processes self)"
    using call_all_Inr by blast
  ultimately show ?thesis by simp
qed

lemma qBitManager_run_trace:
  "(\<forall>u t'. qBitManager_run e self t = (Inr u, t') \<longrightarrow>
      t' = t @ [Log ''qBitrr.Manager'' NOTICE ''Starting %s child processes''
                  [ANat (length (child_processes self))]]
             @ map (Proc Start) (child_processes self)
             @ map (Proc Join) (child_processes self))
   \<and> ((\<forall>t. \<forall>p\<in>set (child_processes self).
          proc e t Start p = None \<and> proc e t Join p = None) \<longrightarrow>
        qBitManager_run e self t =
          (Inr (),
           t @ [Log ''qBitrr.Manager'' NOTICE ''Starting %s child processes''
                  [ANat (length (child_processes self))]]
             @ map (Proc Start) (child_processes self)
             @ map (Proc Join) (child_processes self)))"
proof (intro conjI allI impI)
  fix u t'
  assume a: "qBitManager_run e self t = (Inr u, t')"
  obtain r t1 where s: "start_join e self t = (r, t1)" by (cases "start_join e self t")
  with a obtain v where "r = Inr v" and "t1 = t'"
    by (cases r) (auto simp: qBitManager_run_def split: if_splits)
  with s show "t' = t @ [Log ''qBitrr.Manager'' NOTICE ''Starting %s child processes''
                  [ANat (length (child_processes self))]]
             @ map (Proc Start) (child_processes self)
             @ map (Proc Join) (child_processes self)"
    using start_join_Inr by blast
next
  assume "\<forall>t. \<forall>p\<in>set (child_processes self). proc e t Start p = None \<and> proc e t Join p = None"
  from start_join_ok [OF this]
  show "qBitManager_run e self t =
          (Inr (),
           t @ [Log ''qBitrr.Manager'' NOTICE ''Starting %s child processes''
                  [ANat (length (child_processes self))]]
             @ map (Proc Start) (child_processes self)
             @ map (Proc Join) (child_processes self))"
    by (simp add: qBitManager_run_def)
qed

text \<open>
  C1. For every list of handles that \<open>get_child_processes\<close> produces for a freshly
  constructed manager, the managed objects registering their workers: the list is the
  manager's \<open>child_processes\<close>; whenever \<open>qBitManager.run\<close> completes normally it has
  started every handle of the list, in the order of the list, and after that joined every
  one of them in the same order, and nothing else; and it does complete normally when
  every \<open>start\<close> and \<open>join\<close> returns.
\<close>

theorem get_child_processes_then_run:
  assumes reg: "\<forall>arr cps n ps cps'.
             spawn_child_processes e arr cps = (Inr (n, ps), cps') \<longrightarrow> cps' = cps @ ps"
    and empty: "child_processes self = []"
    and produced: "get_child_processes e self t = (Inr procs, self', t1)"
  shows "child_processes self' = procs
       \<and> (\<forall>u t2. qBitManager_run e self' t1 = (Inr u, t2) \<longrightarrow>
            t2 = t1 @ [Log ''qBitrr.Manager'' NOTICE ''Starting %s child processes''
                        [ANat (length procs)]]
                   @ map (Proc Start) procs @ map (Proc Join) procs)
       \<and> ((\<forall>t. \<forall>p\<in>set procs. proc e t Start p = None \<and> proc e t Join p = None) \<longrightarrow>
            qBitManager_run e self' t1 =
              (Inr (),
               t1 @ [Log ''qBitrr.Manager'' NOTICE ''Starting %s child processes''
                       [ANat (length procs)]]
                  @ map (Proc Start) procs @ map (Proc Join) procs))"
proof -
  from get_child_processes_appends [OF reg produced] empty
  have c: "child_processes self' = procs" by simp
  then have p: "procs = child_processes self'" by simp
  note l = qBitManager_run_trace [of e self' t1]
  show ?thesis
    unfolding p by (intro conjI refl conjunct1 [OF l] conjunct2 [OF l])
qed

theorem get_child_processes_then_run_witness:
  "get_child_processes env_process (manager_at [4, 3, 5] True) [] =
     (Inr [7, 8], (manager_at [4, 3, 5] True)\<lparr>child_processes := [7, 8]\<rparr>,
      [Log ''qBitrr.Manager'' HNOTICE ''Managing %s categories'' [ANat 2]])
   \<and> qBitManager_run env_process ((manager_at [4, 3, 5] True)\<lparr>child_processes := [7, 8]\<rparr>)
       [Log ''qBitrr.Manager'' HNOTICE ''Managing %s categories'' [ANat 2]] =
     (Inr (),
      [Log ''qBitrr.Manager'' HNOTICE ''Managing %s categories'' [ANat 2],
       Log ''qBitrr.Manager'' NOTICE ''Starting %s child processes'' [ANat 2],
       Proc Start 7, Proc Start 8, Proc Join 7, Proc Join 8])"
proof -
  let ?M = "manager_at [4, 3, 5] True"
  let ?M' = "(manager_at [4, 3, 5] True)\<lparr>child_processes := [7, 8]\<rparr>"
  let ?T = "[Log ''qBitrr.Manager'' HNOTICE ''Managing %s categories'' [ANat 2]]"
  have reg: "\<forall>arr cps n ps cps'.
      spawn_child_processes env_process arr cps = (Inr (n, ps), cps') \<longrightarrow> cps' = cps @ ps"
    by (auto simp: env_process_def env_ok_def)
  have empty: "child_processes ?M = []"
    by (simp add: manager_at_def)
  have g: "get_child_processes env_process ?M [] = (Inr [7, 8], ?M', ?T)"
    by (simp add: get_child_processes_def env_process_def env_ok_def manager_at_def)
  have r: "qBitManager_run env_process ?M' ?T =
             (Inr (), snd (qBitManager_run env_process ?M' ?T))"
    by (simp add: qBitManager_run_def start_join_def env_process_def env_ok_def
        Process_op_def manager_at_def)
  note w = get_child_processes_then_run [OF reg empty g]
  from mp [OF spec [OF spec [OF conjunct1 [OF conjunct2 [OF w]]]] r] g r
  show ?thesis by simp
qed

lemma qBitManager_run_Inl:
  "start_join e self t = (Inl x, t1) \<Longrightarrow>
     qBitManager_run e self t =
       (Inl (SystemExit (if x = KeyboardInterrupt then 0 else 1)),
        t1 @ [if x = KeyboardInterrupt
              then Log ''qBitrr.Manager'' HNOTICE ''Detected Ctrl+C - Terminating process'' []
              else Log ''qBitrr.Manager'' HNOTICE
                     ''Detected Ctrl+C - Terminating process: %r'' [AExn x]])"
  by (simp add: qBitManager_run_def)

lemma qBitManager_run_raises:
  "qBitManager_run e self t = (Inl x, t1) \<Longrightarrow> x = SystemExit 0 \<or> x = SystemExit 1"
  by (cases "start_join e self t")
     (auto simp: qBitManager_run_def split: sum.splits if_splits)

text \<open>
  The outcome of the \<open>try\<close> statement is the outcome of the module's \<open>run\<close>, and of the
  program: the exit hook does not change it.
\<close>

lemma run_after_init:
  "process_flags e t = Inr False \<Longrightarrow>
   init e mn mx (t @ [Log ''qBitrr'' NOTICE ''Starting qBitrr: Version: %s.''
                        [AStr (patched_version e)]]) = (Inr manager, t1) \<Longrightarrow>
   run e mn mx cp t = run_try e manager cp t1"
  by (simp add: run_def)

lemma main_outcome: "fst (main e mn mx) = fst (run e mn mx [] [])"
  by (simp add: main_def split: prod.splits)

text \<open>
  C8. A \<open>KeyboardInterrupt\<close> raised while \<open>qBitManager.run\<close> starts and joins the
  workers is logged and turned into \<open>sys.exit(0)\<close>; any other exception raised there is
  logged and turned into \<open>sys.exit(1)\<close>; the module's \<open>run\<close> lets either
  \<open>SystemExit\<close> pass, and answers a \<open>KeyboardInterrupt\<close> out of
  \<open>get_child_processes\<close> with a log and \<open>sys.exit(0)\<close> itself.
\<close>

theorem run_exit_status:
  "(start_join e self t = (Inl x, t1) \<longrightarrow>
      qBitManager_run e self t =
        (Inl (SystemExit (if x = KeyboardInterrupt then 0 else 1)),
         t1 @ [if x = KeyboardInterrupt
               then Log ''qBitrr.Manager'' HNOTICE ''Detected Ctrl+C - Terminating process'' []
               else Log ''qBitrr.Manager'' HNOTICE
                      ''Detected Ctrl+C - Terminating process: %r'' [AExn x]]))
   \<and> (get_child_processes e manager t0 = (Inr procs, self, t)
        \<and> start_join e self t = (Inl x, t1) \<longrightarrow>
      run_try e manager cp t0 =
        (Inl (SystemExit (if x = KeyboardInterrupt then 0 else 1)), procs,
         t1 @ [if x = KeyboardInterrupt
               then Log ''qBitrr.Manager'' HNOTICE ''Detected Ctrl+C - Terminating process'' []
               else Log ''qBitrr.Manager'' HNOTICE
                      ''Detected Ctrl+C - Terminating process: %r'' [AExn x]]))
   \<and> (get_child_processes e manager t0 = (Inl KeyboardInterrupt, self, t) \<longrightarrow>
      run_try e manager cp t0 =
        (Inl (SystemExit 0), cp,
         t @ [Log ''qBitrr'' HNOTICE ''Detected Ctrl+C - Terminating process'' []]))"
  by (auto simp: run_try_def run_body_def qBitManager_run_Inl)

theorem run_exit_status_witness:
  "run_try env_interrupted (manager_at [4, 3, 5] True) [] [] =
     (Inl (SystemExit 0), [7, 8],
      [Log ''qBitrr.Manager'' HNOTICE ''Managing %s categories'' [ANat 2],
       Log ''qBitrr.Manager'' NOTICE ''Starting %s child processes'' [ANat 2],
       Proc Start 7, Proc Start 8, Proc Join 7, Proc Join 8,
       Log ''qBitrr.Manager'' HNOTICE ''Detected Ctrl+C - Terminating process'' []])
   \<and> run_try env_join_fails (manager_at [4, 3, 5] True) [] [] =
     (Inl (SystemExit 1), [7, 8],
      [Log ''qBitrr.Manager'' HNOTICE ''Managing %s categories'' [ANat 2],
       Log ''qBitrr.Manager'' NOTICE ''Starting %s child processes'' [ANat 2],
       Proc Start 7, Proc Start 8, Proc Join 7,
       Log ''qBitrr.Manager'' HNOTICE ''Detected Ctrl+C - Terminating process: %r''
         [AExn (OtherException ''OSError'')]])
   \<and> fst (qBitManager_run env_join_fails
            ((manager_at [4, 3, 5] True)\<lparr>child_processes := [7, 8]\<rparr>)
            [Log ''qBitrr.Manager'' HNOTICE ''Managing %s categories'' [ANat 2]]) =
      Inl (SystemExit 1)
   \<and> run_try env_spawn_interrupted (manager_at [4, 3, 5] True) [5] [] =
     (Inl (SystemExit 0), [5],
      [Log ''qBitrr.Manager'' HNOTICE ''Managing %s categories'' [ANat 2],
       Log ''qBitrr'' HNOTICE ''Detected Ctrl+C - Terminating process'' []])"
proof -
  let ?M = "manager_at [4, 3, 5] True"
  let ?M' = "(manager_at [4, 3, 5] True)\<lparr>child_processes := [7, 8]\<rparr>"
  let ?T = "[Log ''qBitrr.Manager'' HNOTICE ''Managing %s categories'' [ANat 2]]"
  have g1: "get_child_processes env_interrupted ?M [] = (Inr [7, 8], ?M', ?T)"
    by (simp add: get_child_processes_def env_interrupted_def env_ok_def manager_at_def)
  have s1: "start_join env_interrupted ?M' ?T =
     (Inl KeyboardInterrupt,
      ?T @ [Log ''qBitrr.Manager'' NOTICE ''Starting %s child processes'' [ANat 2],
            Proc Start 7, Proc Start 8, Proc Join 7, Proc Join 8])"
    by (simp add: start_join_def env_interrupted_def env_ok_def manager_at_def)
  have g2: "get_child_processes env_join_fails ?M [] = (Inr [7, 8], ?M', ?T)"
    by (simp add: get_child_processes_def env_join_fails_def env_ok_def manager_at_def)
  have s2: "start_join env_join_fails ?M' ?T =
     (Inl (OtherException ''OSError''),
      ?T @ [Log ''qBitrr.Manager'' NOTICE ''Starting %s child processes'' [ANat 2],
            Proc Start 7, Proc Start 8, Proc Join 7])"
    by (simp add: start_join_def env_join_fails_def env_ok_def manager_at_def)
  have g3: "get_child_processes env_spawn_interrupted ?M [] = (Inl KeyboardInterrupt, ?M, ?T)"
    by (simp add: get_child_processes_def env_spawn_interrupted_def env_ok_def manager_at_def)
  from mp [OF conjunct1 [OF conjunct2 [OF run_exit_status]] conjI [OF g1 s1], of "[]"]
    mp [OF conjunct1 [OF conjunct2 [OF run_exit_status]] conjI [OF g2 s2], of "[]"]
    mp [OF conjunct1 [OF run_exit_status] s2]
    mp [OF conjunct2 [OF conjunct2 [OF run_exit_status]] g3, of "[5]"]
  show ?thesis by simp
qed

subsection \<open>Started handles\<close>

lemma started_from_append:
  "started_from e pre (a @ b) p = (started_from e pre a p \<or> started_from e (pre @ a) b p)"
  by (induction a arbitrary: pre) auto

lemma started_append:
  "started e (a @ b) p = (started e a p \<or> started_from e a b p)"
  by (simp add: started_def started_from_append)

lemma started_mono: "started e t p \<Longrightarrow> started e (t @ t') p"
  by (simp add: started_append)

lemma started_Nil: "\<not> started e [] p"
  by (simp add: started_def)

lemma started_from_Start:
  "started_from e pre t p \<Longrightarrow> Proc Start p \<in> set t \<and> (\<exists>pre'. proc e pre' Start p = None)"
  by (induction t arbitrary: pre) auto

lemma started_Start:
  "started e t p \<Longrightarrow> Proc Start p \<in> set t \<and> (\<exists>pre'. proc e pre' Start p = None)"
  unfolding started_def by (rule started_from_Start)

lemma Process_op_contract:
  assumes "proc e = Process_op fails"
  shows "\<forall>t p. started e t p \<longrightarrow> proc e t Kill p = None \<and> proc e t Terminate p = None"
proof (intro allI impI)
  fix t p
  assume "started e t p"
  from started_Start [OF this] obtain pre' where
    s: "Proc Start p \<in> set t" and n: "proc e pre' Start p = None"
    by blast
  from n assms have "\<not> fails p"
    by (auto simp: Process_op_def split: if_splits)
  with s assms show "proc e t Kill p = None \<and> proc e t Terminate p = None"
    by (simp add: Process_op_def)
qed

lemma kill_terminate_Cons:
  "kill_terminate (p # ps) = Proc Kill p # Proc Terminate p # kill_terminate ps"
  by (simp add: kill_terminate_def)

lemma kill_terminate_Nil: "kill_terminate [] = []"
  by (simp add: kill_terminate_def)


lemma call_all_extends:
  "call_all e op ps t = (r, t') \<Longrightarrow> \<exists>rest. t' = t @ rest"
proof (induction ps arbitrary: t)
  case Nil
  then show ?case by simp
next
  case (Cons q ps)
  show ?case
  proof (cases "proc e t op q")
    case None
    with Cons.prems have "call_all e op ps (t @ [Proc op q]) = (r, t')" by simp
    from Cons.IH [OF this] show ?thesis by auto
  next
    case (Some x)
    with Cons.prems show ?thesis by auto
  qed
qed

lemma call_all_Start_started:
  "call_all e Start ps t = (r, t') \<Longrightarrow>
     \<exists>k. (\<forall>p\<in>set (take k ps). started e t' p)
        \<and> (\<forall>p. started e t' p \<longrightarrow> started e t p \<or> p \<in> set (take k ps))"
proof (induction ps arbitrary: t)
  case Nil
  then show ?case by simp
next
  case (Cons q ps)
  show ?case
  proof (cases "proc e t Start q")
    case (Some x)
    with Cons.prems have "t' = t @ [Proc Start q]" by simp
    with Some have "\<forall>p. started e t' p \<longrightarrow> started e t p"
      by (auto simp: started_append)
    then have "(\<forall>p\<in>set (take 0 (q # ps)). started e t' p)
        \<and> (\<forall>p. started e t' p \<longrightarrow> started e t p \<or> p \<in> set (take 0 (q # ps)))"
      by simp
    then show ?thesis by blast
  next
    case None
    with Cons.prems have c: "call_all e Start ps (t @ [Proc Start q]) = (r, t')" by simp
    from Cons.IH [OF c] obtain k where
      a: "\<forall>p\<in>set (take k ps). started e t' p"
      and b: "\<forall>p. started e t' p \<longrightarrow> started e (t @ [Proc Start q]) p \<or> p \<in> set (take k ps)"
      by blast
    from None have sq: "started e (t @ [Proc Start q]) q"
      by (simp add: started_append)
    from call_all_extends [OF c] obtain rest where "t' = (t @ [Proc Start q]) @ rest"
      by blast
    with sq have sq': "started e t' q"
      using started_mono by blast
    from a sq' have "\<forall>p\<in>set (take (Suc k) (q # ps)). started e t' p"
      by simp
    moreover from b have "\<forall>p. started e t' p \<longrightarrow> started e t p \<or> p \<in> set (take (Suc k) (q # ps))"
      by (auto simp: started_append)
    ultimately show ?thesis by blast
  qed
qed

lemma call_all_other_started:
  "op \<noteq> Start \<Longrightarrow> call_all e op ps t = (r, t') \<Longrightarrow> started e t' p = started e t p"
proof (induction ps arbitrary: t)
  case Nil
  then show ?case by simp
next
  case (Cons q ps)
  show ?case
  proof (cases "proc e t op q")
    case None
    with Cons.prems have "call_all e op ps (t @ [Proc op q]) = (r, t')" by simp
    from Cons.IH [OF Cons.prems(1) this] Cons.prems(1) show ?thesis
      by (simp add: started_append)
  next
    case (Some x)
    with Cons.prems show ?thesis by (auto simp: started_append)
  qed
qed

lemma cleanup_keeps_started: "started e (snd (cleanup e ps t)) p = started e t p"
  by (induction ps arbitrary: t) (auto simp: started_append split: option.splits)

lemma cleanup_extends: "\<exists>rest. snd (cleanup e ps t) = t @ rest"
proof (induction ps arbitrary: t)
  case Nil
  then show ?case by simp
next
  case (Cons q ps)
  from Cons.IH [of "t @ [Proc Kill q, Proc Terminate q]"]
  obtain rest where
    "snd (cleanup e ps (t @ [Proc Kill q, Proc Terminate q])) =
       t @ ([Proc Kill q, Proc Terminate q] @ rest)"
    by auto
  then show ?case
    by (auto split: option.splits)
qed

lemma cleanup_progress:
  assumes contract: "\<forall>t p. started e t p \<longrightarrow> proc e t Kill p = None \<and> proc e t Terminate p = None"
  shows "\<forall>p\<in>set (take k ps). started e t p \<Longrightarrow>
           \<exists>rest. snd (cleanup e ps t) = t @ kill_terminate (take k ps) @ rest"
proof (induction ps arbitrary: k t)
  case Nil
  then show ?case by (simp add: kill_terminate_Nil)
next
  case (Cons q ps)
  show ?case
  proof (cases k)
    case 0
    with cleanup_extends [of e "q # ps" t] show ?thesis
      by (simp add: kill_terminate_Nil)
  next
    case (Suc j)
    with Cons.prems have sq: "started e t q" and rest: "\<forall>p\<in>set (take j ps). started e t p"
      by simp_all
    from sq contract have kq: "proc e t Kill q = None" by blast
    from sq have "started e (t @ [Proc Kill q]) q" by (rule started_mono)
    with contract have tq: "proc e (t @ [Proc Kill q]) Terminate q = None" by blast
    from rest have "\<forall>p\<in>set (take j ps). started e (t @ [Proc Kill q, Proc Terminate q]) p"
      by (simp add: started_mono)
    from Cons.IH [OF this] obtain r where
      "snd (cleanup e ps (t @ [Proc Kill q, Proc Terminate q])) =
         (t @ [Proc Kill q, Proc Terminate q]) @ kill_terminate (take j ps) @ r"
      by blast
    with kq tq Suc show ?thesis
      by (simp add: kill_terminate_Cons)
  qed
qed

lemma init_params_keeps_started:
  "started e (snd (init_params e mn mx t)) p = started e t p"
  by (simp add: init_params_def Let_def started_append)

lemma init_version_keeps_started:
  "started e (snd (init_version e self t)) p = started e t p"
  by (simp add: init_version_def started_append split: sum.splits)

lemma version_validator_keeps_started:
  "started e (snd (version_validator self t)) p = started e t p"
  by (simp add: version_validator_def started_append)

lemma init_rest_keeps_started:
  "started e (snd (init_rest e self t)) p = started e t p"
  by (simp add: init_rest_def Let_def started_append split: sum.splits option.splits)

lemma init_keeps_started:
  assumes "init e mn mx t = (r, t')"
  shows "started e t' p = started e t p"
proof -
  obtain self0 t0 where p: "init_params e mn mx t = (self0, t0)"
    by (cases "init_params e mn mx t")
  obtain self1 t1 where v: "init_version e self0 t0 = (self1, t1)"
    by (cases "init_version e self0 t0")
  obtain rv t2 where g: "version_validator self1 t1 = (rv, t2)"
    by (cases "version_validator self1 t1")
  from init_params_keeps_started [of e mn mx t p] p
  have s0: "started e t0 p = started e t p" by simp
  from init_version_keeps_started [of e self0 t0 p] v
  have s1: "started e t1 p = started e t0 p" by simp
  from version_validator_keeps_started [of e self1 t1 p] g
  have s2: "started e t2 p = started e t1 p" by simp
  show ?thesis
  proof (cases rv)
    case (Inl x)
    with assms p v g have "t' = t2" by (simp add: init_def)
    with s0 s1 s2 show ?thesis by simp
  next
    case (Inr u)
    with assms p v g have "init_rest e self1 t2 = (r, t')" by (simp add: init_def)
    with init_rest_keeps_started [of e self1 t2 p]
    have "started e t' p = started e t2 p" by simp
    with s0 s1 s2 show ?thesis by simp
  qed
qed

lemma qBitManager_run_started:
  assumes "qBitManager_run e self t = (r, t')"
  shows "\<exists>k. (\<forall>p\<in>set (take k (child_processes self)). started e t' p)
        \<and> (\<forall>p. started e t' p \<longrightarrow> started e t p \<or> p \<in> set (take k (child_processes self)))"
proof -
  let ?t1 = "t @ [Log ''qBitrr.Manager'' NOTICE ''Starting %s child processes''
                     [ANat (length (child_processes self))]]"
  have t1: "\<And>p. started e ?t1 p = started e t p"
    by (simp add: started_append)
  obtain rs ts where s: "call_all e Start (child_processes self) ?t1 = (rs, ts)"
    by (cases "call_all e Start (child_processes self) ?t1")
  from call_all_Start_started [OF s] t1 obtain k where
    a: "\<forall>p\<in>set (take k (child_processes self)). started e ts p"
    and b: "\<forall>p. started e ts p \<longrightarrow> started e t p \<or> p \<in> set (take k (child_processes self))"
    by auto
  obtain rj tj where j: "start_join e self t = (rj, tj)"
    by (cases "start_join e self t")
  have tj: "\<And>p. started e tj p = started e ts p"
  proof (cases rs)
    case (Inl x)
    with s j show "\<And>p. started e tj p = started e ts p"
      by (simp add: start_join_def)
  next
    case (Inr u)
    with s j have "call_all e Join (child_processes self) ts = (rj, tj)"
      by (simp add: start_join_def)
    then show "\<And>p. started e tj p = started e ts p"
      by (rule call_all_other_started [rotated]) simp
  qed
  from assms j have "\<And>p. started e t' p = started e tj p"
    by (cases rj) (auto simp: qBitManager_run_def started_append split: if_splits)
  with tj a b show ?thesis by auto
qed

lemma kill_terminate_mem:
  "p \<in> set ps \<Longrightarrow> \<exists>a b. (kill_terminate ps :: 'v trace) = a @ Proc Kill p # b"
proof (induction ps)
  case Nil
  then show ?case by simp
next
  case (Cons q ps)
  show ?case
  proof (cases "p = q")
    case True
    have "(kill_terminate (q # ps) :: 'v trace) =
            [] @ Proc Kill q # (Proc Terminate q # kill_terminate ps)"
      by (simp add: kill_terminate_Cons)
    with True show ?thesis by blast
  next
    case False
    with Cons obtain a b where "(kill_terminate ps :: 'v trace) = a @ Proc Kill p # b"
      by auto
    then have "(kill_terminate (q # ps) :: 'v trace) =
                 (Proc Kill q # Proc Terminate q # a) @ Proc Kill p # b"
      by (simp add: kill_terminate_Cons)
    then show ?thesis by blast
  qed
qed

lemma get_child_processes_keeps_started:
  "get_child_processes e self t = (r, self', t') \<Longrightarrow> started e t' p = started e t p"
  by (auto simp: get_child_processes_def started_append split: prod.splits)

lemma run_try_started:
  assumes reg: "\<forall>arr cps n ps cps'.
             spawn_child_processes e arr cps = (Inr (n, ps), cps') \<longrightarrow> cps' = cps @ ps"
    and empty: "child_processes manager = []"
    and ns: "\<forall>p. \<not> started e t p"
    and rt: "run_try e manager cp t = (r, cp', t1)"
  shows "\<exists>k. (\<forall>p\<in>set (take k cp'). started e t1 p)
           \<and> (\<forall>p. started e t1 p \<longrightarrow> p \<in> set (take k cp'))"
proof -
  obtain rg m' tg where g: "get_child_processes e manager t = (rg, m', tg)"
    by (cases "get_child_processes e manager t") auto
  from get_child_processes_keeps_started [OF g] ns
  have tg: "\<forall>p. \<not> started e tg p" by simp
  show ?thesis
  proof (cases rg)
    case (Inl x)
    with g have b: "run_body e manager cp t = (Inl x, m', cp, tg)"
      by (simp add: run_body_def)
    have "\<forall>p. \<not> started e t1 p"
    proof (cases "x = KeyboardInterrupt")
      case True
      with b rt tg show ?thesis
        by (auto simp: run_try_def started_append)
    next
      case False
      show ?thesis
      proof (cases "is_Exception x")
        case True
        let ?tl = "tg @ [Log ''qBitrr'' NOTICE
                        ''Attempting to terminate child processes, please wait a moment.'' []]"
        obtain rk tk where k: "call_all e Kill (child_processes m') ?tl = (rk, tk)"
          by (cases "call_all e Kill (child_processes m') ?tl")
        have "\<And>p. started e tk p = started e ?tl p"
          by (rule call_all_other_started [OF _ k]) simp
        with tg have "\<forall>p. \<not> started e tk p"
          by (simp add: started_append)
        moreover from b rt False True k have "t1 = tk"
          by (simp add: run_try_def)
        ultimately show ?thesis by simp
      next
        case nx: False
        with b rt False have "t1 = tg"
          by (simp add: run_try_def)
        with tg show ?thesis by simp
      qed
    qed
    then have "(\<forall>p\<in>set (take 0 cp'). started e t1 p)
           \<and> (\<forall>p. started e t1 p \<longrightarrow> p \<in> set (take 0 cp'))"
      by simp
    then show ?thesis by blast
  next
    case (Inr procs)
    with g have g': "get_child_processes e manager t = (Inr procs, m', tg)" by simp
    from get_child_processes_appends [OF reg g'] empty
    have c: "child_processes m' = procs" by simp
    obtain rq tq where q: "qBitManager_run e m' tg = (rq, tq)"
      by (cases "qBitManager_run e m' tg")
    from g' q have b: "run_body e manager cp t = (rq, m', procs, tq)"
      by (simp add: run_body_def)
    have "cp' = procs \<and> t1 = tq"
    proof (cases rq)
      case (Inl x)
      with q have "x = SystemExit 0 \<or> x = SystemExit 1"
        using qBitManager_run_raises by blast
      with b rt Inl show ?thesis
        by (auto simp: run_try_def)
    next
      case (Inr u)
      with b rt show ?thesis
        by (simp add: run_try_def)
    qed
    with qBitManager_run_started [OF q] c tg show ?thesis
      by auto
  qed
qed

lemma run_started:
  assumes reg: "\<forall>arr cps n ps cps'.
             spawn_child_processes e arr cps = (Inr (n, ps), cps') \<longrightarrow> cps' = cps @ ps"
    and r: "run e mn mx [] [] = (r, cp, t1)"
  shows "\<exists>k. (\<forall>p\<in>set (take k cp). started e t1 p)
           \<and> (\<forall>p. started e t1 p \<longrightarrow> p \<in> set (take k cp))"
proof -
  let ?t0 = "[Log ''qBitrr'' NOTICE ''Starting qBitrr: Version: %s.''
                [AStr (patched_version e)]]"
  have none: "(\<forall>p. \<not> started e t1 p) \<Longrightarrow> ?thesis"
  proof -
    assume "\<forall>p. \<not> started e t1 p"
    then have "(\<forall>p\<in>set (take 0 cp). started e t1 p)
           \<and> (\<forall>p. started e t1 p \<longrightarrow> p \<in> set (take 0 cp))"
      by simp
    then show ?thesis by blast
  qed
  show ?thesis
  proof (cases "process_flags e []")
    case (Inl x)
    with r have "t1 = []" by (simp add: run_def)
    then show ?thesis using none by (simp add: started_Nil)
  next
    case (Inr early_exit)
    show ?thesis
    proof (cases early_exit)
      case True
      with Inr r have "t1 = []" by (simp add: run_def)
      then show ?thesis using none by (simp add: started_Nil)
    next
      case False
      obtain ri ti where i: "init e mn mx ([] @ ?t0) = (ri, ti)"
        by (cases "init e mn mx ([] @ ?t0)")
      from init_keeps_started [OF i]
      have ti: "\<forall>p. \<not> started e ti p"
        by (simp add: started_def)
      show ?thesis
      proof (cases ri)
        case (Inl x)
        with Inr False i r have "t1 = ti" by (simp add: run_def)
        with ti show ?thesis using none by simp
      next
        case ok: (Inr manager)
        with i have i': "init e mn mx ([] @ ?t0) = (Inr manager, ti)" by simp
        from Inr False i' r have "run_try e manager [] ti = (r, cp, t1)"
          by (simp add: run_def)
        from run_try_started [OF reg init_child_processes [OF i'] ti this]
        show ?thesis .
      qed
    qed
  qed
qed

subsection \<open>The exit hook\<close>




subsection \<open>The program as a whole\<close>

text \<open>
  When the body of the \<open>try\<close> of the module's \<open>run\<close> raises an instance of
  \<open>Exception\<close>, the handler logs and calls \<open>kill\<close>, and nothing else, on the handles of
  the manager's \<open>child_processes\<close>, up to the first call that raises.
\<close>

lemma run_try_handler:
  "run_body e manager cp t = (Inl x, manager', cp', t1) \<Longrightarrow> is_Exception x \<Longrightarrow>
     run_try e manager cp t =
       (case call_all e Kill (child_processes manager')
               (t1 @ [Log ''qBitrr'' NOTICE
                        ''Attempting to terminate child processes, please wait a moment.'' []]) of
          (r, t2) \<Rightarrow> (r, cp', t2))"
  by (auto simp: run_try_def)

text \<open>
  C9. Let the managed objects register their workers, and let \<open>kill\<close> and \<open>terminate\<close>
  return on every started handle. Whatever leaves \<open>run\<close>, and so in particular every
  exception other than an interrupt: every handle that was started has been sent \<open>kill\<close>
  after its start and before the process exits, by the exit hook at the latest.
\<close>

theorem main_kills_started_workers:
  fixes e :: "('v::linorder, 'a) env"
  assumes reg: "\<forall>arr cps n ps cps'.
             spawn_child_processes e arr cps = (Inr (n, ps), cps') \<longrightarrow> cps' = cps @ ps"
    and contract: "\<forall>t p. started e t p \<longrightarrow>
             proc e t Kill p = None \<and> proc e t Terminate p = None"
  shows "\<forall>p. started e (snd (main e mn mx)) p \<longrightarrow>
           (\<exists>pre post. snd (main e mn mx) = pre @ Proc Kill p # post \<and> started e pre p)"
proof (intro allI impI)
  fix p
  assume sp: "started e (snd (main e mn mx)) p"
  obtain r cp t1 where run: "run e mn mx [] [] = (r, cp, t1)"
    by (cases "run e mn mx [] []") auto
  then have m: "snd (main e mn mx) = snd (cleanup e cp t1)"
    by (simp add: main_def)
  with sp have s1: "started e t1 p"
    by (simp add: cleanup_keeps_started)
  from run_started [OF reg run] obtain k where
    a: "\<forall>q\<in>set (take k cp). started e t1 q"
    and b: "\<forall>q. started e t1 q \<longrightarrow> q \<in> set (take k cp)"
    by blast
  from b s1 have "p \<in> set (take k cp)" by blast
  from kill_terminate_mem [OF this] obtain x y where
    kt: "(kill_terminate (take k cp) :: 'v trace) = x @ Proc Kill p # y"
    by blast
  from cleanup_progress [OF contract a] obtain rest where
    "snd (cleanup e cp t1) = t1 @ kill_terminate (take k cp) @ rest"
    by blast
  with kt m have "snd (main e mn mx) = (t1 @ x) @ Proc Kill p # (y @ rest)"
    by simp
  moreover from s1 have "started e (t1 @ x) p" by (rule started_mono)
  ultimately show "\<exists>pre post. snd (main e mn mx) = pre @ Proc Kill p # post \<and> started e pre p"
    by blast
qed

lemma main_env_start_fails:
  "main env_start_fails [4, 3, 4] [4, 4] =
     (Inl (SystemExit 1),
      [Log ''qBitrr'' NOTICE ''Starting qBitrr: Version: %s.'' [AStr ''2.1.0''],
       Log ''qBitrr.Manager'' DEBUG
         ''QBitTorrent Config: Host: %s Port: %s, Username: %s, Password: %s''
         [ACfg (CStr ''nas''), ACfg (CInt 8105), ACfg CNone, ACfg CNone],
       AppVersion,
       Log ''qBitrr.Manager'' HNOTICE ''Current qBitTorrent version is supported: %s''
         [AVer [4, 3, 5]],
       Log ''qBitrr.Manager'' HNOTICE ''Managing %s categories'' [ANat 2],
       Log ''qBitrr.Manager'' NOTICE ''Starting %s child processes'' [ANat 2],
       Proc Start 7, Proc Start 8,
       Log ''qBitrr.Manager'' HNOTICE ''Detected Ctrl+C - Terminating process: %r''
         [AExn (OtherException ''OSError'')],
       Proc Kill 7, Proc Terminate 7, Proc Kill 8])"
  by (simp add: main_def run_def run_try_def run_body_def get_child_processes_def
      qBitManager_run_def start_join_def init_def init_params_def init_version_def
      init_rest_def fetch_version_def version_validator_def CONFIG_get_def Let_def
      env_start_fails_def env_ok_def Process_op_def)

theorem main_kills_started_workers_witness:
  "fst (main env_start_fails [4, 3, 4] [4, 4]) = Inl (SystemExit 1)
   \<and> started env_start_fails (snd (main env_start_fails [4, 3, 4] [4, 4])) 7
   \<and> \<not> started env_start_fails (snd (main env_start_fails [4, 3, 4] [4, 4])) 8
   \<and> Proc Kill 7 \<in> set (snd (main env_start_fails [4, 3, 4] [4, 4]))"
proof -
  have reg: "\<forall>arr cps n ps cps'.
      spawn_child_processes env_start_fails arr cps = (Inr (n, ps), cps') \<longrightarrow> cps' = cps @ ps"
    by (auto simp: env_start_fails_def env_ok_def)
  have contract: "\<forall>t p. started env_start_fails t p \<longrightarrow>
      proc env_start_fails t Kill p = None \<and> proc env_start_fails t Terminate p = None"
    by (rule Process_op_contract [of env_start_fails "\<lambda>p. p = 8"])
       (simp add: env_start_fails_def)
  have s7: "started env_start_fails (snd (main env_start_fails [4, 3, 4] [4, 4])) 7"
    unfolding main_env_start_fails
    by (simp add: started_def env_start_fails_def Process_op_def)
  have s8: "\<not> started env_start_fails (snd (main env_start_fails [4, 3, 4] [4, 4])) 8"
    unfolding main_env_start_fails
    by (simp add: started_def env_start_fails_def Process_op_def)
  from mp [OF spec [OF main_kills_started_workers [OF reg contract]] s7]
  have "Proc Kill 7 \<in> set (snd (main env_start_fails [4, 3, 4] [4, 4]))"
    by auto
  with s7 s8 show ?thesis
    by (simp add: main_env_start_fails)
qed

end
